theory Spec2Isabelle
  imports Main
begin

section \<open>JavaScript values used by the modules\<close>

text \<open>
  Strings are lists of characters. URLs and UUIDs are ASCII, so one \<^typ>\<open>char\<close> stands
  for one UTF-16 code unit of the JavaScript string. A value of type \<open>string | null\<close> is a
  \<^typ>\<open>string option\<close>; it is falsy when it is \<open>null\<close> or the empty string.

  A thrown object is recorded by the name of its class and its message.
\<close>

datatype js_error = JsError (error_class: string) (error_message: string)

definition Error :: "string \<Rightarrow> js_error" where
  "Error m = JsError ''Error'' m"

definition TypeError :: "string \<Rightarrow> js_error" where
  "TypeError m = JsError ''TypeError'' m"

definition RequestValidationError :: "string \<Rightarrow> js_error" where
  "RequestValidationError m = JsError ''RequestValidationError'' m"

definition truthy :: "string option \<Rightarrow> bool" where
  "truthy v = (case v of None \<Rightarrow> False | Some s \<Rightarrow> s \<noteq> [])"

text \<open>A \<open>string | null\<close> interpolated into a template literal: \<open>`${v}`\<close>.\<close>

definition interpolate :: "string option \<Rightarrow> string" where
  "interpolate v = (case v of None \<Rightarrow> ''null'' | Some s \<Rightarrow> s)"

text \<open>\<open>s.endsWith(t)\<close> and \<open>s.startsWith(t)\<close>.\<close>

definition endsWith :: "string \<Rightarrow> string \<Rightarrow> bool" where
  "endsWith s t = (length t \<le> length s \<and> drop (length s - length t) s = t)"

definition startsWith :: "string \<Rightarrow> string \<Rightarrow> bool" where
  "startsWith s t = (take (length t) s = t)"

text \<open>
  \<open>s.split(sep)\<close> for a one-character separator: the pieces between the separators, in
  order; the empty string gives one empty piece.
\<close>

fun js_split :: "char \<Rightarrow> string \<Rightarrow> string list" where
  "js_split sep [] = [[]]"
| "js_split sep (c # cs) =
     (if c = sep then [] # js_split sep cs
      else (case js_split sep cs of
              [] \<Rightarrow> [[c]]
            | w # ws \<Rightarrow> (c # w) # ws))"

text \<open>\<open>xs.join(sep)\<close> on an array of strings.\<close>

fun js_join :: "string \<Rightarrow> string list \<Rightarrow> string" where
  "js_join sep [] = []"
| "js_join sep [x] = x"
| "js_join sep (x # y # ys) = x @ sep @ js_join sep (y # ys)"

text \<open>
  The line terminators that the regular expression atom \<open>.\<close> does not match. Of the four
  (LF, CR, U+2028, U+2029) the first two are characters of an ASCII string.
\<close>

definition line_terminator :: "char \<Rightarrow> bool" where
  "line_terminator c = (c = CHR 0x0A \<or> c = CHR 0x0D)"


section \<open>The callback registry: \<open>app/backends/service-response.ts\<close>\<close>

text \<open>
  The module state is \<open>config.baseUrl\<close> and the map \<open>idsToCallbacks\<close>. Handlers are
  values of an arbitrary type \<open>'f\<close>: the registry stores and returns them and never looks
  inside. The map entry \<open>{ response: f }\<close> is represented by \<open>f\<close>.
\<close>

record 'f ServiceResponse =
  config_baseUrl :: "string option"
  idsToCallbacks :: "string \<rightharpoonup> 'f"

definition initial :: "'f ServiceResponse" where
  "initial = \<lparr>config_baseUrl = None, idsToCallbacks = Map.empty\<rparr>"

text \<open>
  \<open>UUID_REGEX = /\/service\/(.*)/\<close>. \<open>url.match(UUID_REGEX)\<close> finds the leftmost
  occurrence of \<open>/service/\<close>; group 1 is the longest run of characters after it that
  holds no line terminator. The result is \<open>None\<close> when there is no occurrence (\<open>null\<close> in
  the source) and otherwise \<open>Some\<close> of group 1.
\<close>

fun after_first :: "string \<Rightarrow> string \<Rightarrow> string option" where
  "after_first pat [] = (if pat = [] then Some [] else None)"
| "after_first pat (c # cs) =
     (if startsWith (c # cs) pat then Some (drop (length pat) (c # cs))
      else after_first pat cs)"

definition UUID_REGEX_match :: "string \<Rightarrow> string option" where
  "UUID_REGEX_match url =
     map_option (takeWhile (\<lambda>c. \<not> line_terminator c)) (after_first ''/service/'' url)"

text \<open>
  Every operation returns what it returns or throws, together with the module state it
  leaves. \<open>unbindResponseUrl\<close> takes \<open>string | null\<close>.
\<close>

definition unbindResponseUrl :: "string option \<Rightarrow> 'f ServiceResponse \<Rightarrow> 'f ServiceResponse" where
  "unbindResponseUrl url st =
     (case url of
        None \<Rightarrow> st
      | Some u \<Rightarrow>
          if u = [] then st
          else st\<lparr>idsToCallbacks := (idsToCallbacks st)(last (js_split CHR ''/'' u) := None)\<rparr>)"

text \<open>
  \<open>bindResponseUrl\<close> draws a fresh identifier from the \<open>uuid\<close> library; the model takes
  the identifier drawn as its second argument.
\<close>

definition bindResponseUrl ::
  "'f \<Rightarrow> string \<Rightarrow> 'f ServiceResponse \<Rightarrow> (js_error + string) \<times> 'f ServiceResponse" where
  "bindResponseUrl responseCallback callbackUUID st =
     (case config_baseUrl st of
        None \<Rightarrow> (Inl (Error ''Call configure({ baseUrl }) before calling bindResponseUrl''), st)
      | Some b \<Rightarrow>
          if b = [] then
            (Inl (Error ''Call configure({ baseUrl }) before calling bindResponseUrl''), st)
          else
            (Inr (b @ callbackUUID),
             st\<lparr>idsToCallbacks := (idsToCallbacks st)(callbackUUID \<mapsto> responseCallback)\<rparr>))"

definition isUrlBound :: "'f ServiceResponse \<Rightarrow> string \<Rightarrow> bool" where
  "isUrlBound st callbackUrl =
     (case UUID_REGEX_match callbackUrl of
        None \<Rightarrow> False
      | Some g \<Rightarrow> (case idsToCallbacks st g of None \<Rightarrow> False | Some f \<Rightarrow> True))"

text \<open>
  The request carries the identifier in \<open>req.params.uuid\<close>. \<open>responseHandler\<close> runs the
  stored handler, \<open>callback(req, res)\<close>, inside its own body, so the state it leaves and
  what it throws are those of the handler: a handler may call \<open>unbindResponseUrl\<close>, and
  it may throw. A handler is a value of type \<open>'f\<close>; what running it does is given by a
  function \<open>run\<close>, with \<open>run f req res st = (e, st')\<close> for the state \<open>st'\<close> the handler
  leaves and the error \<open>e\<close> it throws, if any. A call of the handler that returns is
  recorded as \<open>Called f req res\<close>.
\<close>

record HarmonyRequest =
  params_uuid :: string

datatype ('f, 'q, 'r) call = Called 'f 'q 'r

type_synonym ('f, 'q, 'r) handlers =
  "'f \<Rightarrow> 'q \<Rightarrow> 'r \<Rightarrow> 'f ServiceResponse \<Rightarrow> js_error option \<times> 'f ServiceResponse"

definition responseHandler ::
  "('f, 'a HarmonyRequest_scheme, 'r) handlers \<Rightarrow> 'a HarmonyRequest_scheme \<Rightarrow> 'r \<Rightarrow>
     'f ServiceResponse \<Rightarrow>
     (js_error + ('f, 'a HarmonyRequest_scheme, 'r) call) \<times> 'f ServiceResponse" where
  "responseHandler run req res st =
     (let ident = params_uuid req in
      case idsToCallbacks st ident of
        None \<Rightarrow> (Inl (Error (''Could not find response callback for UUID '' @ ident)), st)
      | Some callback \<Rightarrow>
          (case run callback req res st of
             (None, st') \<Rightarrow> (Inr (Called callback req res), st')
           | (Some e, st') \<Rightarrow> (Inl e, st')))"

definition configure ::
  "string option \<Rightarrow> 'f ServiceResponse \<Rightarrow> (js_error + unit) \<times> 'f ServiceResponse" where
  "configure baseUrl st =
     (case baseUrl of
        None \<Rightarrow> (Inr (), st)
      | Some b \<Rightarrow>
          if b = [] then (Inr (), st)
          else
            let newUrl = b @ (if endsWith b ''/'' then [] else ''/'') in
            if truthy (config_baseUrl st) \<and> config_baseUrl st \<noteq> Some newUrl then
              (Inl (Error (''ServiceResponse baseUrl '' @ interpolate (config_baseUrl st)
                             @ '' would be overwritten by '' @ b)), st)
            else (Inr (), st\<lparr>config_baseUrl := Some b\<rparr>))"

text \<open>
  The five exported functions as the operations of the module, and the state each leaves.
  Nothing else reads or writes \<open>config\<close> and \<open>idsToCallbacks\<close>; a handler reaches them
  through these functions.
\<close>

datatype ('f, 'q, 'r) operation =
  Configure "string option"
| BindResponseUrl 'f string
| UnbindResponseUrl "string option"
| IsUrlBound string
| ResponseHandler 'q 'r

fun apply_operation ::
  "('f, 'a HarmonyRequest_scheme, 'r) handlers \<Rightarrow>
     ('f, 'a HarmonyRequest_scheme, 'r) operation \<Rightarrow> 'f ServiceResponse \<Rightarrow> 'f ServiceResponse" where
  "apply_operation run (Configure baseUrl) st = snd (configure baseUrl st)"
| "apply_operation run (BindResponseUrl f callbackUUID) st =
     snd (bindResponseUrl f callbackUUID st)"
| "apply_operation run (UnbindResponseUrl url) st = unbindResponseUrl url st"
| "apply_operation run (IsUrlBound url) st = st"
| "apply_operation run (ResponseHandler req res) st = snd (responseHandler run req res st)"

text \<open>
  The identifiers in the table come from \<open>uuid()\<close> alone, and a UUID has no \<open>/\<close> in it.
\<close>

definition slash_free_tokens :: "'f ServiceResponse \<Rightarrow> bool" where
  "slash_free_tokens st = (\<forall>k \<in> dom (idsToCallbacks st). CHR ''/'' \<notin> set k)"


section \<open>Persisted records: \<open>app/models/record.ts\<close>\<close>

text \<open>
  \<open>JSON.stringify\<close> on an array of strings: the quoted elements, separated by commas,
  in brackets. A quoted string escapes the double quote, the backslash and the control
  characters below U+0020.
\<close>

definition hex_digit :: "nat \<Rightarrow> char" where
  "hex_digit n = ''0123456789abcdef'' ! (n mod 16)"

definition json_escape :: "char \<Rightarrow> string" where
  "json_escape c =
     (if c = CHR 0x22 then [CHR 0x5C, CHR 0x22]
      else if c = CHR 0x5C then [CHR 0x5C, CHR 0x5C]
      else if c = CHR 0x08 then [CHR 0x5C, CHR ''b'']
      else if c = CHR 0x0C then [CHR 0x5C, CHR ''f'']
      else if c = CHR 0x0A then [CHR 0x5C, CHR ''n'']
      else if c = CHR 0x0D then [CHR 0x5C, CHR ''r'']
      else if c = CHR 0x09 then [CHR 0x5C, CHR ''t'']
      else if (of_char c :: nat) < 0x20 then
        [CHR 0x5C, CHR ''u'', CHR ''0'', CHR ''0'',
         hex_digit (of_char c div 16), hex_digit (of_char c)]
      else [c])"

definition json_string :: "string \<Rightarrow> string" where
  "json_string s = [CHR 0x22] @ concat (map json_escape s) @ [CHR 0x22]"

definition JSON_stringify :: "string list \<Rightarrow> string" where
  "JSON_stringify xs = ''['' @ js_join '','' (map json_string xs) @ '']''"

text \<open>
  A \<open>Date\<close> is its time value, in milliseconds. The three fields of the abstract class
  are the fields of the record type; the fields a subclass adds are the extension of
  the record scheme. An unset field (\<open>undefined\<close> or \<open>null\<close>) is \<open>None\<close>.
\<close>

type_synonym Date = int

record Record =
  updatedAt :: "Date option"
  createdAt :: "Date option"
  record_id :: "int option"

text \<open>
  What a concrete subclass supplies: its static \<open>table\<close> and its \<open>validate\<close> method,
  which returns \<open>null\<close> (\<open>None\<close>) for a valid record and a list of errors otherwise. The
  base class's own \<open>validate\<close> returns \<open>null\<close>.
\<close>

record 'r RecordConstructor =
  table :: string
  validate :: "'r \<Rightarrow> string list option"

definition Record_validate :: "'r \<Rightarrow> string list option" where
  "Record_validate this = None"

text \<open>
  The statements \<open>save\<close> hands to the transaction: \<open>transaction(table).insert(row)\<close>,
  with or without \<open>.returning('id')\<close>, and
  \<open>transaction(table).where({ id }).update(row)\<close>. An awaited statement either resolves,
  an insert to the list of generated ids, or rejects.
\<close>

datatype 'r statement =
  is_Insert: Insert string 'r bool
| is_Update: Update string "int option" 'r

datatype db_reply = Resolved "int list" | Rejected js_error

text \<open>
  What one call of \<open>save\<close> reads from outside the record: the configured database
  client, the clock (\<open>new Date()\<close>) and the reply of the statement it awaits.
\<close>

record save_env =
  db_client :: string
  now :: Date
  reply :: db_reply

text \<open>
  \<open>save\<close> returns the error it throws, if any, the record as the call leaves it, and
  the statements it has issued.
\<close>

definition save ::
  "'a Record_scheme RecordConstructor \<Rightarrow> save_env \<Rightarrow> 'a Record_scheme \<Rightarrow>
     js_error option \<times> 'a Record_scheme \<times> 'a Record_scheme statement list" where
  "save cls env this =
     (case validate cls this of
        Some errors \<Rightarrow>
          (Some (TypeError (''Job record is invalid: '' @ JSON_stringify errors)), this, [])
      | None \<Rightarrow>
          let this1 = this\<lparr>updatedAt := Some (now env)\<rparr>;
              newRecord = (createdAt this1 = None)
          in
            if newRecord then
              let this2 = this1\<lparr>createdAt := updatedAt this1\<rparr>;
                  stmt = Insert (table cls) this2 (db_client env = ''pg'')
              in (case reply env of
                    Rejected e \<Rightarrow> (Some e, this2, [stmt])
                  | Resolved ids \<Rightarrow>
                      (None,
                       this2\<lparr>record_id := (case ids of [] \<Rightarrow> None | i # _ \<Rightarrow> Some i)\<rparr>,
                       [stmt]))
            else
              let stmt = Update (table cls) (record_id this1) this1
              in (case reply env of
                    Rejected e \<Rightarrow> (Some e, this1, [stmt])
                  | Resolved _ \<Rightarrow> (None, this1, [stmt])))"

text \<open>
  A sequence of calls of \<open>save\<close> on one record, one environment per call: the records
  left by the calls, up to the first call that throws.
\<close>

fun save_seq ::
  "'a Record_scheme RecordConstructor \<Rightarrow> save_env list \<Rightarrow> 'a Record_scheme \<Rightarrow>
     'a Record_scheme list" where
  "save_seq cls [] this = []"
| "save_seq cls (env # envs) this =
     (case save cls env this of
        (None, this', stmts) \<Rightarrow> this' # save_seq cls envs this'
      | (Some e, this', stmts) \<Rightarrow> [])"


section \<open>Variable parsing for OGC coverages requests: \<open>parseVariables\<close>\<close>

record CmrUmmVariable =
  umm_Name :: string

record 'v CmrCollection =
  collection_id :: string
  collection_variables :: "'v list"

record 'v VariableInfo =
  collectionId :: string
  variables :: "'v list option"

text \<open>The inner loop over \<open>variableIds\<close>, for one collection.\<close>

fun variables_loop ::
  "'a CmrUmmVariable_scheme list \<Rightarrow> string list \<Rightarrow>
     string list \<times> 'a CmrUmmVariable_scheme list \<Rightarrow>
     string list \<times> 'a CmrUmmVariable_scheme list" where
  "variables_loop cvars [] (missingVariables, vars) = (missingVariables, vars)"
| "variables_loop cvars (variableId # rest) (missingVariables, vars) =
     (case find (\<lambda>v. umm_Name v = variableId) cvars of
        Some variable \<Rightarrow>
          variables_loop cvars rest
            (filter (\<lambda>v. v \<noteq> variableId) missingVariables, vars @ [variable])
      | None \<Rightarrow> variables_loop cvars rest (missingVariables, vars))"

text \<open>The outer loop over the collections.\<close>

fun collections_loop ::
  "string list \<Rightarrow> 'a CmrUmmVariable_scheme CmrCollection list \<Rightarrow>
     string list \<times> 'a CmrUmmVariable_scheme VariableInfo list \<Rightarrow>
     string list \<times> 'a CmrUmmVariable_scheme VariableInfo list" where
  "collections_loop variableIds [] (missingVariables, variableInfo) =
     (missingVariables, variableInfo)"
| "collections_loop variableIds (collection # rest) (missingVariables, variableInfo) =
     (case variables_loop (collection_variables collection) variableIds (missingVariables, []) of
        (missingVariables', vars) \<Rightarrow>
          collections_loop variableIds rest
            (missingVariables',
             variableInfo @ [\<lparr>collectionId = collection_id collection, variables = Some vars\<rparr>]))"

definition parseVariables ::
  "'a CmrUmmVariable_scheme CmrCollection list \<Rightarrow> string \<Rightarrow>
     js_error + 'a CmrUmmVariable_scheme VariableInfo list" where
  "parseVariables eosdisCollections collectionIdParam =
     (let variableIds = js_split CHR '','' collectionIdParam in
      if ''all'' \<in> set variableIds then
        if length variableIds \<noteq> 1 then
          Inl (RequestValidationError
                 ([CHR 0x22] @ ''all'' @ [CHR 0x22]
                  @ '' cannot be specified alongside other variables''))
        else
          Inr (map (\<lambda>collection. \<lparr>collectionId = collection_id collection, variables = None\<rparr>)
                 eosdisCollections)
      else
        (case collections_loop variableIds eosdisCollections (variableIds, []) of
           (missingVariables, variableInfo) \<Rightarrow>
             if length missingVariables > 0 then
               Inl (RequestValidationError
                      (''Coverages were not found for the provided CMR collection: ''
                       @ js_join '', '' missingVariables))
             else Inr variableInfo))"

section \<open>Instances used to exercise the theorems\<close>

text \<open>A subclass of \<open>Record\<close> with one field of its own, which must not be empty.\<close>

record Sample = Record +
  username :: string

definition Sample_class :: "Sample RecordConstructor" where
  "Sample_class =
     \<lparr>table = ''samples'',
      validate = (\<lambda>r. if username r = [] then Some [''username is required''] else None)\<rparr>"

definition new_sample :: Sample where
  "new_sample = \<lparr>updatedAt = None, createdAt = None, record_id = None, username = ''jdoe''\<rparr>"

definition bad_sample :: Sample where
  "bad_sample = \<lparr>updatedAt = None, createdAt = None, record_id = None, username = []\<rparr>"

definition env_at :: "Date \<Rightarrow> save_env" where
  "env_at t = \<lparr>db_client = ''pg'', now = t, reply = Resolved [42]\<rparr>"

definition a_uuid :: string where
  "a_uuid = ''6ec0bd7f-11c0-43da-975e-2a8ad9ebae0b''"

definition service_state :: "nat ServiceResponse" where
  "service_state =
     \<lparr>config_baseUrl = Some ''http://harmony/service/'', idsToCallbacks = [a_uuid \<mapsto> 7]\<rparr>"



definition disruptive_handlers :: "('f, 'q, 'r) handlers" where
  "disruptive_handlers f req res st = (Some (Error ''handler ran''), initial)"

definition saved_sample :: Sample where
  "saved_sample =
     \<lparr>updatedAt = Some 1000, createdAt = Some 1000, record_id = Some 42, username = ''jdoe''\<rparr>"

section \<open>Strings: splitting and matching\<close>

lemma js_split_length: "length (js_split sep s) = Suc (length (filter (\<lambda>c. c = sep) s))"
  by (induction s) (auto split: list.splits)

lemma js_split_no_sep: "sep \<notin> set g \<Longrightarrow> js_split sep g = [g]"
  by (induction g) auto

lemma js_split_last: "last (js_split sep (xs @ sep # ys)) = last (js_split sep ys)"
proof (induction xs)
  case Nil
  have "js_split sep ys \<noteq> []"
    using js_split_length [of sep ys] by auto
  then show ?case by simp
next
  case (Cons x xs)
  have "2 \<le> length (js_split sep (xs @ sep # ys))"
    using js_split_length [of sep "xs @ sep # ys"] by simp
  then obtain w v vs where "js_split sep (xs @ sep # ys) = w # v # vs"
    by (cases "js_split sep (xs @ sep # ys)"; cases "tl (js_split sep (xs @ sep # ys))") auto
  with Cons show ?case by auto
qed

lemma last_segment: "sep \<notin> set g \<Longrightarrow> last (js_split sep (xs @ sep # g)) = g"
  by (simp add: js_split_last js_split_no_sep)

text \<open>A match of the pattern splits the string around its leftmost occurrence.\<close>

lemma after_first_Some: "after_first pat s = Some g \<Longrightarrow> \<exists>p. s = p @ pat @ g"
proof (induction s)
  case Nil
  then show ?case by (auto split: if_splits)
next
  case (Cons c cs)
  show ?case
  proof (cases "startsWith (c # cs) pat")
    case True
    with Cons.prems have "g = drop (length pat) (c # cs)" by simp
    moreover from True have "c # cs = pat @ drop (length pat) (c # cs)"
      unfolding startsWith_def by (metis append_take_drop_id)
    ultimately have "c # cs = [] @ pat @ g" by simp
    then show ?thesis by blast
  next
    case False
    with Cons.prems have "after_first pat cs = Some g" by simp
    then obtain p where "cs = p @ pat @ g" using Cons.IH by blast
    then have "c # cs = (c # p) @ pat @ g" by simp
    then show ?thesis by blast
  qed
qed

text \<open>
  When the pattern does not occur in \<open>p @ pat\<close> before its last character, the leftmost
  occurrence in \<open>p @ pat @ u\<close> is the one after \<open>p\<close>, whatever \<open>u\<close> is.
\<close>

lemma after_first_suffix:
  "pat \<noteq> [] \<Longrightarrow> after_first pat (butlast (p @ pat)) = None \<Longrightarrow>
     after_first pat (p @ pat @ u) = Some u"
proof (induction p)
  case Nil
  then show ?case by (cases pat) (auto simp: startsWith_def)
next
  case (Cons c p)
  from Cons.prems(1) have "butlast ((c # p) @ pat) = c # butlast (p @ pat)"
    by simp
  with Cons.prems(2) have ns: "\<not> startsWith (c # butlast (p @ pat)) pat"
    and rest: "after_first pat (butlast (p @ pat)) = None"
    by (auto split: if_splits)
  have len: "length pat \<le> length (c # butlast (p @ pat))"
    using Cons.prems(1) by simp
  have "take (length pat) (c # p @ pat @ u) = take (length pat) (c # butlast (p @ pat))"
  proof -
    have "c # p @ pat @ u = (c # butlast (p @ pat)) @ (last pat # u)"
      using Cons.prems(1) by (simp add: butlast_append)
    then show ?thesis
      using len by (metis take_append diff_is_0_eq take_0 append_Nil2)
  qed
  with ns have "\<not> startsWith (c # p @ pat @ u) pat"
    by (simp add: startsWith_def)
  then have "after_first pat ((c # p) @ pat @ u) = after_first pat (p @ pat @ u)"
    by simp
  with Cons.IH [OF Cons.prems(1) rest] show ?case by simp
qed

lemma endsWith_decomp: "endsWith b t \<Longrightarrow> b = take (length b - length t) b @ t"
  unfolding endsWith_def by (metis append_take_drop_id)

lemma takeWhile_no_terminator:
  "\<forall>c \<in> set u. \<not> line_terminator c \<Longrightarrow> takeWhile (\<lambda>c. \<not> line_terminator c) u = u"
  by (simp add: takeWhile_eq_all_conv)

lemma match_bound_url:
  assumes "endsWith b ''/service/''" and "UUID_REGEX_match (butlast b) = None"
    and "\<forall>c \<in> set u. \<not> line_terminator c"
  shows "UUID_REGEX_match (b @ u) = Some u"
proof -
  obtain p where p: "b = p @ ''/service/''"
    using endsWith_decomp [OF assms(1)] by blast
  from assms(2) p have "after_first ''/service/'' (butlast (p @ ''/service/'')) = None"
    by (simp add: UUID_REGEX_match_def)
  then have "after_first ''/service/'' (p @ ''/service/'' @ u) = Some u"
    by (intro after_first_suffix) simp_all
  with p assms(3) show ?thesis
    by (simp add: UUID_REGEX_match_def takeWhile_no_terminator)
qed

lemma match_last_segment:
  assumes "UUID_REGEX_match u = Some g" and "\<forall>c \<in> set u. \<not> line_terminator c"
    and "CHR ''/'' \<notin> set g"
  shows "u \<noteq> [] \<and> last (js_split CHR ''/'' u) = g"
proof -
  from assms(1) obtain g' where "after_first ''/service/'' u = Some g'"
    and g: "g = takeWhile (\<lambda>c. \<not> line_terminator c) g'"
    by (auto simp: UUID_REGEX_match_def)
  then obtain p where p: "u = p @ ''/service/'' @ g'"
    using after_first_Some by blast
  with assms(2) have "\<forall>c \<in> set g'. \<not> line_terminator c" by simp
  with g have "g = g'" by (simp add: takeWhile_no_terminator)
  with p have "u = (p @ ''/service'') @ CHR ''/'' # g" by simp
  with assms(3) show ?thesis
    using last_segment [of "CHR ''/''" g "p @ ''/service''"] by simp
qed


section \<open>The callback registry\<close>

subsection \<open>What each operation leaves of the table\<close>

lemma unbind_removes:
  "u \<noteq> [] \<Longrightarrow>
     idsToCallbacks (unbindResponseUrl (Some u) st) (last (js_split CHR ''/'' u)) = None"
  by (simp add: unbindResponseUrl_def)

lemma unbind_only_removes:
  "idsToCallbacks st k = None \<Longrightarrow> idsToCallbacks (unbindResponseUrl url st) k = None"
  by (simp add: unbindResponseUrl_def split: option.splits)


lemma configure_keeps_table: "idsToCallbacks (snd (configure b st)) = idsToCallbacks st"
  by (simp add: configure_def Let_def split: option.splits)

lemma responseHandler_not_found:
  "idsToCallbacks st (params_uuid req) = None \<Longrightarrow>
     responseHandler run req res st =
       (Inl (Error (''Could not find response callback for UUID '' @ params_uuid req)), st)"
  by (simp add: responseHandler_def)

lemma responseHandler_found:
  "idsToCallbacks st (params_uuid req) = Some f \<Longrightarrow>
     responseHandler run req res st =
       (case run f req res st of
          (None, st') \<Rightarrow> (Inr (Called f req res), st')
        | (Some e, st') \<Rightarrow> (Inl e, st'))"
  by (simp add: responseHandler_def)

lemma responseHandler_state:
  "idsToCallbacks st (params_uuid req) = Some f \<Longrightarrow>
     snd (responseHandler run req res st) = snd (run f req res st)"
  by (simp add: responseHandler_found split: prod.splits option.splits)

text \<open>
  Tokens without \<open>/\<close> are an invariant of the module: it holds at the start, and every
  operation keeps it as long as \<open>uuid()\<close> returns identifiers without \<open>/\<close> and the
  handlers keep it.
\<close>

lemma slash_free_tokens_initial: "slash_free_tokens initial"
  by (simp add: slash_free_tokens_def initial_def)

lemma slash_free_tokens_step:
  assumes "slash_free_tokens st"
    and "\<And>f callbackUUID. op = BindResponseUrl f callbackUUID \<Longrightarrow> CHR ''/'' \<notin> set callbackUUID"
    and "\<And>f req res s. slash_free_tokens s \<Longrightarrow> slash_free_tokens (snd (run f req res s))"
  shows "slash_free_tokens (apply_operation run op st)"
proof (cases op)
  case (Configure b)
  with assms(1) show ?thesis
    by (simp add: slash_free_tokens_def configure_keeps_table)
next
  case (BindResponseUrl f callbackUUID)
  with assms(1,2) show ?thesis
    by (auto simp: slash_free_tokens_def bindResponseUrl_def split: option.splits if_splits)
next
  case (UnbindResponseUrl url)
  with assms(1) show ?thesis
    by (auto simp: slash_free_tokens_def unbindResponseUrl_def split: option.splits if_splits)
next
  case (IsUrlBound url)
  with assms(1) show ?thesis by simp
next
  case (ResponseHandler req res)
  show ?thesis
  proof (cases "idsToCallbacks st (params_uuid req)")
    case None
    with ResponseHandler assms(1) show ?thesis
      by (simp add: responseHandler_not_found)
  next
    case (Some f)
    with ResponseHandler assms(1,3) show ?thesis
      by (simp add: responseHandler_state)
  qed
qed

subsection \<open>Binding, looking up and unbinding\<close>

text \<open>
  The three functions read a URL in two ways: \<open>bindResponseUrl\<close> puts the token right
  behind the stored base URL and \<open>unbindResponseUrl\<close> takes the last segment of the URL,
  while \<open>isUrlBound\<close> takes what stands behind the leftmost \<open>/service/\<close>, up to the first
  line terminator. The two readings agree in these cases: when the stored base URL ends
  with \<open>/service/\<close> and holds no earlier \<open>/service/\<close>, and the token has no line
  terminator, \<open>isUrlBound\<close> finds the URL just bound; and for a URL without a line
  terminator, in a table whose tokens have no \<open>/\<close>, \<open>isUrlBound\<close> answers false after
  \<open>unbindResponseUrl\<close>.
\<close>

lemma isUrlBound_where_readings_agree:
  "(config_baseUrl st = Some b \<and> endsWith b ''/service/''
      \<and> UUID_REGEX_match (butlast b) = None
      \<and> (\<forall>c \<in> set callbackUUID. \<not> line_terminator c)
    \<longrightarrow> (\<exists>st'. bindResponseUrl f callbackUUID st = (Inr (b @ callbackUUID), st')
               \<and> isUrlBound st' (b @ callbackUUID)))
   \<and> (slash_free_tokens st \<and> (\<forall>c \<in> set u. \<not> line_terminator c)
    \<longrightarrow> \<not> isUrlBound (unbindResponseUrl (Some u) st) u)"
proof (intro conjI impI)
  assume a: "config_baseUrl st = Some b \<and> endsWith b ''/service/''
      \<and> UUID_REGEX_match (butlast b) = None
      \<and> (\<forall>c \<in> set callbackUUID. \<not> line_terminator c)"
  then have "b \<noteq> []" by (auto simp: endsWith_def)
  with a have bind: "bindResponseUrl f callbackUUID st =
      (Inr (b @ callbackUUID),
       st\<lparr>idsToCallbacks := (idsToCallbacks st)(callbackUUID \<mapsto> f)\<rparr>)"
    by (simp add: bindResponseUrl_def)
  from a have "UUID_REGEX_match (b @ callbackUUID) = Some callbackUUID"
    by (intro match_bound_url) simp_all
  then have "isUrlBound (st\<lparr>idsToCallbacks := (idsToCallbacks st)(callbackUUID \<mapsto> f)\<rparr>)
      (b @ callbackUUID)"
    by (simp add: isUrlBound_def)
  with bind show "\<exists>st'. bindResponseUrl f callbackUUID st = (Inr (b @ callbackUUID), st')
      \<and> isUrlBound st' (b @ callbackUUID)"
    by blast
next
  assume a: "slash_free_tokens st \<and> (\<forall>c \<in> set u. \<not> line_terminator c)"
  show "\<not> isUrlBound (unbindResponseUrl (Some u) st) u"
  proof (cases "UUID_REGEX_match u")
    case None
    then show ?thesis by (simp add: isUrlBound_def)
  next
    case (Some g)
    have "idsToCallbacks (unbindResponseUrl (Some u) st) g = None"
    proof (cases "idsToCallbacks st g")
      case None
      then show ?thesis by (rule unbind_only_removes)
    next
      case (Some f)
      with a have "CHR ''/'' \<notin> set g"
        by (auto simp: slash_free_tokens_def)
      with \<open>UUID_REGEX_match u = Some g\<close> a
      have "u \<noteq> [] \<and> last (js_split CHR ''/'' u) = g"
        by (intro match_last_segment) simp_all
      then show ?thesis using unbind_removes [of u st] by auto
    qed
    with Some show ?thesis by (simp add: isUrlBound_def)
  qed
qed

text \<open>
  C1, where the readings disagree. With the base URL \<open>http://harmony/callback/\<close>
  configured, \<open>bindResponseUrl\<close> registers the handler and returns the base URL followed
  by the token; that URL has no \<open>/service/\<close> in it and \<open>isUrlBound\<close> answers false for it,
  although it is registered. And a URL that ends with a line feed is unbound by its
  last segment, line feed included, while \<open>isUrlBound\<close> reads the token up to the line
  feed: after \<open>unbindResponseUrl\<close> on it, \<open>isUrlBound\<close> still answers true.
\<close>

theorem isUrlBound_false_after_bind:
  "configure (Some ''http://harmony/callback/'') (initial :: nat ServiceResponse) =
     (Inr (), \<lparr>config_baseUrl = Some ''http://harmony/callback/'', idsToCallbacks = Map.empty\<rparr>)
   \<and> bindResponseUrl (7::nat) ''6ec0bd7f-11c0-43da-975e-2a8ad9ebae0b''
       \<lparr>config_baseUrl = Some ''http://harmony/callback/'', idsToCallbacks = Map.empty\<rparr> =
     (Inr ''http://harmony/callback/6ec0bd7f-11c0-43da-975e-2a8ad9ebae0b'',
      \<lparr>config_baseUrl = Some ''http://harmony/callback/'',
       idsToCallbacks = [''6ec0bd7f-11c0-43da-975e-2a8ad9ebae0b'' \<mapsto> 7]\<rparr>)
   \<and> isUrlBound
       \<lparr>config_baseUrl = Some ''http://harmony/callback/'',
        idsToCallbacks = [''6ec0bd7f-11c0-43da-975e-2a8ad9ebae0b'' \<mapsto> (7::nat)]\<rparr>
       ''http://harmony/callback/6ec0bd7f-11c0-43da-975e-2a8ad9ebae0b'' = False
   \<and> isUrlBound
       (unbindResponseUrl (Some (''http://harmony/service/'' @ a_uuid @ [CHR 0x0A])) service_state)
       (''http://harmony/service/'' @ a_uuid @ [CHR 0x0A]) = True"
  by (simp add: configure_def initial_def endsWith_def truthy_def bindResponseUrl_def
        isUrlBound_def UUID_REGEX_match_def startsWith_def unbindResponseUrl_def
        service_state_def a_uuid_def line_terminator_def)

subsection \<open>Invoking a handler\<close>

text \<open>
  C2. When the token of the request is not in the table, \<open>responseHandler\<close> throws an
  \<open>Error\<close> with the message \<open>Could not find response callback for UUID\<close> and the token,
  calls no handler and leaves the state as it was, whatever the handlers would do. That
  is so for a token that was never bound, and for the token that \<open>unbindResponseUrl\<close>
  has just removed.
\<close>

theorem responseHandler_unbound_not_found:
  "(idsToCallbacks st (params_uuid req) = None \<longrightarrow>
      responseHandler run req res st =
        (Inl (Error (''Could not find response callback for UUID '' @ params_uuid req)), st))
   \<and> (u \<noteq> [] \<and> params_uuid req = last (js_split CHR ''/'' u) \<longrightarrow>
      responseHandler run req res (unbindResponseUrl (Some u) st) =
        (Inl (Error (''Could not find response callback for UUID '' @ params_uuid req)),
         unbindResponseUrl (Some u) st))"
  by (simp add: responseHandler_def unbind_removes)

theorem responseHandler_unbound_not_found_witness:
  "idsToCallbacks (initial :: nat ServiceResponse) a_uuid = None
   \<and> responseHandler disruptive_handlers \<lparr>params_uuid = a_uuid\<rparr> ()
       (initial :: nat ServiceResponse) =
       (Inl (JsError ''Error''
          ''Could not find response callback for UUID 6ec0bd7f-11c0-43da-975e-2a8ad9ebae0b''),
        initial)
   \<and> idsToCallbacks service_state a_uuid = Some 7
   \<and> last (js_split CHR ''/'' (''http://harmony/service/'' @ a_uuid)) = a_uuid
   \<and> responseHandler disruptive_handlers \<lparr>params_uuid = a_uuid\<rparr> ()
       (unbindResponseUrl (Some (''http://harmony/service/'' @ a_uuid)) service_state) =
       (Inl (JsError ''Error''
          ''Could not find response callback for UUID 6ec0bd7f-11c0-43da-975e-2a8ad9ebae0b''),
        \<lparr>config_baseUrl = Some ''http://harmony/service/'', idsToCallbacks = Map.empty\<rparr>)"
  using responseHandler_unbound_not_found
      [of "initial :: nat ServiceResponse" "\<lparr>params_uuid = a_uuid\<rparr>" disruptive_handlers "()"
          "''http://harmony/service/'' @ a_uuid"]
    responseHandler_unbound_not_found
      [of service_state "\<lparr>params_uuid = a_uuid\<rparr>" disruptive_handlers "()"
          "''http://harmony/service/'' @ a_uuid"]
  by (simp add: initial_def service_state_def a_uuid_def unbindResponseUrl_def Error_def)




subsection \<open>Configuring the base URL\<close>

text \<open>
  \<open>configure\<close> computes \<open>newUrl\<close>, the base URL with a \<open>/\<close> appended when it has none at
  its end, compares the stored URL to it, and then stores the base URL as it was given.
  The next two theorems run the code where that shows.

  C4, at the base URL \<open>http://harmony/service\<close>, given without a slash at its end:
  \<open>configure\<close> stores it as it is, and the URL that \<open>bindResponseUrl\<close> then returns is
  the base URL followed by the token with no \<open>/\<close> between them.
\<close>

theorem bindResponseUrl_no_separator:
  "configure (Some ''http://harmony/service'') (initial :: nat ServiceResponse) =
     (Inr (), \<lparr>config_baseUrl = Some ''http://harmony/service'', idsToCallbacks = Map.empty\<rparr>)
   \<and> fst (bindResponseUrl (7::nat) ''6ec0bd7f-11c0-43da-975e-2a8ad9ebae0b''
            \<lparr>config_baseUrl = Some ''http://harmony/service'', idsToCallbacks = Map.empty\<rparr>) =
       Inr ''http://harmony/service6ec0bd7f-11c0-43da-975e-2a8ad9ebae0b''"
  by (simp add: configure_def initial_def endsWith_def truthy_def bindResponseUrl_def)

text \<open>
  C5, at the same base URL. After \<open>configure\<close> has stored \<open>http://harmony/service\<close>, a
  second call with the same value throws. And when the stored URL is
  \<open>http://harmony/service/\<close>, a call with \<open>http://harmony/service\<close> does not throw and
  replaces the stored URL by the value given.
\<close>

theorem configure_same_value_throws:
  "configure (Some ''http://harmony/service'') (initial :: nat ServiceResponse) =
     (Inr (), \<lparr>config_baseUrl = Some ''http://harmony/service'', idsToCallbacks = Map.empty\<rparr>)
   \<and> configure (Some ''http://harmony/service'')
       \<lparr>config_baseUrl = Some ''http://harmony/service'',
        idsToCallbacks = (Map.empty :: string \<rightharpoonup> nat)\<rparr> =
     (Inl (JsError ''Error''
        ''ServiceResponse baseUrl http://harmony/service would be overwritten by http://harmony/service''),
      \<lparr>config_baseUrl = Some ''http://harmony/service'', idsToCallbacks = Map.empty\<rparr>)
   \<and> configure (Some ''http://harmony/service'')
       \<lparr>config_baseUrl = Some ''http://harmony/service/'',
        idsToCallbacks = (Map.empty :: string \<rightharpoonup> nat)\<rparr> =
     (Inr (), \<lparr>config_baseUrl = Some ''http://harmony/service'', idsToCallbacks = Map.empty\<rparr>)"
  by (simp add: configure_def initial_def endsWith_def truthy_def interpolate_def Error_def)


section \<open>Saving a record\<close>

text \<open>What a call of \<open>save\<close> that does not throw leaves in the two timestamps.\<close>

lemma save_stamps:
  "save cls env this = (None, this', stmts) \<Longrightarrow>
     updatedAt this' = Some (now env) \<and>
     createdAt this' = (case createdAt this of None \<Rightarrow> Some (now env) | Some c \<Rightarrow> Some c)"
  by (auto simp: save_def Let_def split: option.splits db_reply.splits if_splits)

lemma save_seq_createdAt:
  "createdAt this = Some c \<Longrightarrow> r \<in> set (save_seq cls envs this) \<Longrightarrow> createdAt r = Some c"
proof (induction envs arbitrary: this)
  case Nil
  then show ?case by simp
next
  case (Cons env envs)
  show ?case
  proof (cases "save cls env this")
    case (fields e this' stmts)
    show ?thesis
    proof (cases e)
      case None
      with fields Cons.prems(1) have c: "createdAt this' = Some c"
        using save_stamps [of cls env this this' stmts] by simp
      from Cons.prems(2) fields None have "r = this' \<or> r \<in> set (save_seq cls envs this')"
        by simp
      with c Cons.IH [OF c] show ?thesis by auto
    next
      case (Some err)
      with fields Cons.prems(2) show ?thesis by simp
    qed
  qed
qed

lemma save_seq_updatedAt:
  "r \<in> set (save_seq cls envs this) \<Longrightarrow> \<exists>env \<in> set envs. updatedAt r = Some (now env)"
proof (induction envs arbitrary: this)
  case Nil
  then show ?case by simp
next
  case (Cons env envs)
  show ?case
  proof (cases "save cls env this")
    case (fields e this' stmts)
    show ?thesis
    proof (cases e)
      case None
      with fields have u: "updatedAt this' = Some (now env)"
        using save_stamps [of cls env this this' stmts] by simp
      from Cons.prems fields None have "r = this' \<or> r \<in> set (save_seq cls envs this')"
        by simp
      with u Cons.IH [of this'] show ?thesis by auto
    next
      case (Some err)
      with fields Cons.prems show ?thesis by simp
    qed
  qed
qed

lemma save_seq_clock:
  "map updatedAt (save_seq cls envs this) =
     map (\<lambda>e. Some (now e)) (take (length (save_seq cls envs this)) envs)"
proof (induction envs arbitrary: this)
  case Nil
  then show ?case by simp
next
  case (Cons env envs)
  show ?case
  proof (cases "save cls env this")
    case (fields e this' stmts)
    show ?thesis
    proof (cases e)
      case None
      with fields have "updatedAt this' = Some (now env)"
        using save_stamps [of cls env this this' stmts] by simp
      with fields None Cons.IH [of this'] show ?thesis by simp
    next
      case (Some err)
      with fields show ?thesis by simp
    qed
  qed
qed

lemma save_seq_sorted:
  "sorted (map now envs) \<Longrightarrow>
     sorted_wrt (\<lambda>a b. \<exists>s t. updatedAt a = Some s \<and> updatedAt b = Some t \<and> s \<le> t)
       (save_seq cls envs this)"
proof (induction envs arbitrary: this)
  case Nil
  then show ?case by simp
next
  case (Cons env envs)
  show ?case
  proof (cases "save cls env this")
    case (fields e this' stmts)
    show ?thesis
    proof (cases e)
      case None
      with fields have u: "updatedAt this' = Some (now env)"
        using save_stamps [of cls env this this' stmts] by simp
      have later: "\<exists>s t. updatedAt this' = Some s \<and> updatedAt r = Some t \<and> s \<le> t"
        if "r \<in> set (save_seq cls envs this')" for r
      proof -
        from that obtain env' where "env' \<in> set envs" "updatedAt r = Some (now env')"
          using save_seq_updatedAt by blast
        with Cons.prems u show ?thesis by auto
      qed
      from Cons.prems have "sorted (map now envs)" by simp
      with Cons.IH [of this'] later fields None show ?thesis by simp
    next
      case (Some err)
      with fields show ?thesis by simp
    qed
  qed
qed

text \<open>
  C6, as the code has it. A record that passes \<open>validate\<close> and has neither \<open>id\<close> nor
  \<open>createdAt\<close> is saved by one insert; when the store answers with the generated id, the
  call leaves \<open>id\<close> set to it and \<open>createdAt\<close> and \<open>updatedAt\<close> set to the clock reading.
  A second \<open>save\<close> of the record so left issues one update, keyed by that id;
  \<open>createdAt\<close> and \<open>id\<close> stay and \<open>updatedAt\<close> is the clock reading of the second call,
  later than the first when the clock has moved on between the calls. Every call that
  passes validation issues exactly one statement: an insert when \<open>createdAt\<close> is unset,
  an update otherwise, whatever the \<open>id\<close>.
\<close>

theorem save_insert_then_update:
  assumes "validate cls this = None" and "createdAt this = None" and "record_id this = None"
    and "reply env = Resolved (i # ids)"
    and "this1 = this\<lparr>updatedAt := Some (now env), createdAt := Some (now env),
                      record_id := Some i\<rparr>"
    and "validate cls this1 = None" and "reply env' = Resolved ids'"
    and "this2 = this1\<lparr>updatedAt := Some (now env')\<rparr>"
  shows "save cls env this =
           (None, this1,
            [Insert (table cls) (this1\<lparr>record_id := None\<rparr>) (db_client env = ''pg'')])
         \<and> record_id this1 = Some i \<and> createdAt this1 = Some (now env)
         \<and> updatedAt this1 = Some (now env)
         \<and> save cls env' this1 = (None, this2, [Update (table cls) (Some i) this2])
         \<and> createdAt this2 = createdAt this1 \<and> record_id this2 = record_id this1
         \<and> updatedAt this2 = Some (now env')
         \<and> (now env < now env' \<longrightarrow>
              (\<exists>s t. updatedAt this1 = Some s \<and> updatedAt this2 = Some t \<and> s < t))
         \<and> (validate cls r = None \<longrightarrow>
              (\<exists>stmt. snd (snd (save cls env'' r)) = [stmt]
                 \<and> (is_Insert stmt \<longleftrightarrow> createdAt r = None)
                 \<and> (is_Update stmt \<longleftrightarrow> createdAt r \<noteq> None)))"
proof -
  have ins: "save cls env this =
      (None, this1, [Insert (table cls) (this1\<lparr>record_id := None\<rparr>) (db_client env = ''pg'')])"
    using assms(1-5) by (simp add: save_def Let_def)
  have upd: "save cls env' this1 = (None, this2, [Update (table cls) (Some i) this2])"
    using assms(5-8) by (simp add: save_def Let_def)
  have one: "validate cls r = None \<longrightarrow>
      (\<exists>stmt. snd (snd (save cls env'' r)) = [stmt]
         \<and> (is_Insert stmt \<longleftrightarrow> createdAt r = None)
         \<and> (is_Update stmt \<longleftrightarrow> createdAt r \<noteq> None))"
    by (auto simp: save_def Let_def split: db_reply.splits)
  from ins upd one assms(5,8) show ?thesis by simp
qed

theorem save_insert_then_update_witness:
  "validate Sample_class new_sample = None
   \<and> createdAt new_sample = None \<and> record_id new_sample = None
   \<and> reply (env_at 1000) = Resolved [42]
   \<and> save Sample_class (env_at 1000) new_sample =
       (None,
        \<lparr>updatedAt = Some 1000, createdAt = Some 1000, record_id = Some 42, username = ''jdoe''\<rparr>,
        [Insert ''samples''
           \<lparr>updatedAt = Some 1000, createdAt = Some 1000, record_id = None, username = ''jdoe''\<rparr>
           True])
   \<and> save Sample_class (env_at 2500)
       \<lparr>updatedAt = Some 1000, createdAt = Some 1000, record_id = Some 42, username = ''jdoe''\<rparr> =
       (None,
        \<lparr>updatedAt = Some 2500, createdAt = Some 1000, record_id = Some 42, username = ''jdoe''\<rparr>,
        [Update ''samples'' (Some 42)
           \<lparr>updatedAt = Some 2500, createdAt = Some 1000, record_id = Some 42,
            username = ''jdoe''\<rparr>])"
  using save_insert_then_update
    [where cls = Sample_class and this = new_sample and env = "env_at 1000" and i = 42
       and ids = "[]" and env' = "env_at 2500" and ids' = "[42]"
       and ?this1.0 = "\<lparr>updatedAt = Some 1000, createdAt = Some 1000, record_id = Some 42,
                        username = ''jdoe''\<rparr>"
       and ?this2.0 = "\<lparr>updatedAt = Some 2500, createdAt = Some 1000, record_id = Some 42,
                        username = ''jdoe''\<rparr>"
       and r = new_sample and env'' = "env_at 1000"]
  by (simp add: Sample_class_def new_sample_def env_at_def)

text \<open>
  Where C6 as it is written fails. A second \<open>save\<close> within the same clock reading leaves
  \<open>updatedAt\<close> where it was, and one after the clock was set back lowers it. And the
  \<open>id\<close> has no part in the choice of the path: a record with an \<open>id\<close> and no
  \<open>createdAt\<close> is inserted, and one with a \<open>createdAt\<close> and no \<open>id\<close> is updated, with
  no key.
\<close>

theorem save_update_keeps_or_lowers_updatedAt:
  "save Sample_class (env_at 1000) new_sample =
     (None, saved_sample,
      [Insert ''samples''
         \<lparr>updatedAt = Some 1000, createdAt = Some 1000, record_id = None, username = ''jdoe''\<rparr>
         True])
   \<and> save Sample_class (env_at 1000) saved_sample =
       (None, saved_sample, [Update ''samples'' (Some 42) saved_sample])
   \<and> save Sample_class (env_at 500) saved_sample =
       (None,
        \<lparr>updatedAt = Some 500, createdAt = Some 1000, record_id = Some 42, username = ''jdoe''\<rparr>,
        [Update ''samples'' (Some 42)
           \<lparr>updatedAt = Some 500, createdAt = Some 1000, record_id = Some 42,
            username = ''jdoe''\<rparr>])
   \<and> save Sample_class (env_at 1000)
       \<lparr>updatedAt = None, createdAt = None, record_id = Some 5, username = ''jdoe''\<rparr> =
       (None, saved_sample,
        [Insert ''samples''
           \<lparr>updatedAt = Some 1000, createdAt = Some 1000, record_id = Some 5, username = ''jdoe''\<rparr>
           True])
   \<and> save Sample_class (env_at 1000)
       \<lparr>updatedAt = None, createdAt = Some 10, record_id = None, username = ''jdoe''\<rparr> =
       (None,
        \<lparr>updatedAt = Some 1000, createdAt = Some 10, record_id = None, username = ''jdoe''\<rparr>,
        [Update ''samples'' None
           \<lparr>updatedAt = Some 1000, createdAt = Some 10, record_id = None, username = ''jdoe''\<rparr>])"
  by (simp add: save_def Let_def Sample_class_def new_sample_def saved_sample_def env_at_def)

text \<open>
  C7, as the code has it. When \<open>validate\<close> returns a list of errors that is not empty,
  \<open>save\<close> throws a \<open>TypeError\<close> whose message is \<open>Job record is invalid:\<close> followed by
  \<open>JSON.stringify\<close> of that list.
\<close>

theorem save_invalid_throws_TypeError:
  "validate cls this = Some errors \<Longrightarrow> errors \<noteq> [] \<Longrightarrow>
     fst (save cls env this) =
       Some (JsError ''TypeError'' (''Job record is invalid: '' @ JSON_stringify errors))"
  by (simp add: save_def TypeError_def)

theorem save_invalid_throws_TypeError_witness:
  "validate Sample_class bad_sample = Some [''username is required'']
   \<and> [''username is required''] \<noteq> []
   \<and> fst (save Sample_class (env_at 2500) bad_sample) =
       Some (JsError ''TypeError''
          (''Job record is invalid: ['' @ [CHR 0x22] @ ''username is required'' @ [CHR 0x22]
           @ '']''))"
  using save_invalid_throws_TypeError
    [of Sample_class bad_sample "[''username is required'']" "env_at 2500"]
  by (simp add: Sample_class_def bad_sample_def JSON_stringify_def json_string_def
        json_escape_def)

text \<open>
  Where C7 as it is written fails: the error that \<open>save\<close> throws for an invalid record
  is of class \<open>TypeError\<close>, not of a class \<open>ValidationError\<close>.
\<close>

theorem save_invalid_not_ValidationError:
  "validate Sample_class bad_sample = Some [''username is required'']
   \<and> map_option error_class (fst (save Sample_class (env_at 1000) bad_sample)) = Some ''TypeError''
   \<and> map_option error_class (fst (save Sample_class (env_at 1000) bad_sample))
       \<noteq> Some ''ValidationError''"
  by (simp add: save_def Sample_class_def bad_sample_def TypeError_def)

text \<open>
  C8, as the code has it. Take any sequence of calls of \<open>save\<close> on one record whose first
  call succeeds. The first call leaves \<open>createdAt\<close> set (to its clock reading when it was
  unset) and every later successful call leaves it at that value. After each successful
  call \<open>updatedAt\<close> is the clock reading of that call; so it does not decrease from one
  call to a later one when the clock readings of the calls do not decrease.
\<close>

theorem save_seq_timestamps:
  assumes "save cls env this = (None, this1, stmts)"
  shows "save_seq cls (env # envs) this = this1 # save_seq cls envs this1
         \<and> createdAt this1 \<noteq> None
         \<and> (createdAt this = None \<longrightarrow> createdAt this1 = Some (now env))
         \<and> (\<forall>r \<in> set (save_seq cls envs this1). createdAt r = createdAt this1)
         \<and> map updatedAt (save_seq cls (env # envs) this) =
             map (\<lambda>e. Some (now e)) (take (length (save_seq cls (env # envs) this)) (env # envs))
         \<and> (sorted (map now (env # envs)) \<longrightarrow>
              sorted_wrt (\<lambda>a b. \<exists>s t. updatedAt a = Some s \<and> updatedAt b = Some t \<and> s \<le> t)
                (save_seq cls (env # envs) this))"
proof -
  from assms have s: "save_seq cls (env # envs) this = this1 # save_seq cls envs this1"
    by simp
  from assms obtain c where c: "createdAt this1 = Some c"
    using save_stamps [of cls env this this1 stmts] by (auto split: option.splits)
  from assms have n: "createdAt this = None \<longrightarrow> createdAt this1 = Some (now env)"
    using save_stamps [of cls env this this1 stmts] by simp
  have k: "\<forall>r \<in> set (save_seq cls envs this1). createdAt r = createdAt this1"
    using save_seq_createdAt [OF c] c by simp
  have u: "map updatedAt (save_seq cls (env # envs) this) =
      map (\<lambda>e. Some (now e)) (take (length (save_seq cls (env # envs) this)) (env # envs))"
    by (rule save_seq_clock)
  have m: "sorted (map now (env # envs)) \<longrightarrow>
      sorted_wrt (\<lambda>a b. \<exists>s t. updatedAt a = Some s \<and> updatedAt b = Some t \<and> s \<le> t)
        (save_seq cls (env # envs) this)"
    using save_seq_sorted by blast
  from s c n k u m show ?thesis by simp
qed

theorem save_seq_timestamps_witness:
  "save Sample_class (env_at 1000) new_sample =
     (None,
      \<lparr>updatedAt = Some 1000, createdAt = Some 1000, record_id = Some 42, username = ''jdoe''\<rparr>,
      [Insert ''samples''
         \<lparr>updatedAt = Some 1000, createdAt = Some 1000, record_id = None, username = ''jdoe''\<rparr>
         True])
   \<and> sorted (map now [env_at 1000, env_at 1000, env_at 2500])
   \<and> map createdAt (save_seq Sample_class [env_at 1000, env_at 1000, env_at 2500] new_sample) =
       [Some 1000, Some 1000, Some 1000]
   \<and> map updatedAt (save_seq Sample_class [env_at 1000, env_at 1000, env_at 2500] new_sample) =
       [Some 1000, Some 1000, Some 2500]"
  using save_seq_timestamps
    [where cls = Sample_class and env = "env_at 1000" and this = new_sample
       and envs = "[env_at 1000, env_at 2500]"
       and ?this1.0 = "\<lparr>updatedAt = Some 1000, createdAt = Some 1000, record_id = Some 42,
                        username = ''jdoe''\<rparr>"
       and stmts = "[Insert ''samples''
         \<lparr>updatedAt = Some 1000, createdAt = Some 1000, record_id = None, username = ''jdoe''\<rparr>
         True]"]
  by (simp add: save_def Let_def Sample_class_def new_sample_def env_at_def)

text \<open>
  Where C8 as it is written fails: two successful calls of \<open>save\<close>, the clock set back
  between them. \<open>createdAt\<close> stays and \<open>updatedAt\<close> goes from 2500 to 500.
\<close>

theorem save_seq_updatedAt_decreases:
  "map updatedAt (save_seq Sample_class [env_at 2500, env_at 500] new_sample) =
     [Some 2500, Some 500]
   \<and> map createdAt (save_seq Sample_class [env_at 2500, env_at 500] new_sample) =
     [Some 2500, Some 2500]"
  by (simp add: save_def Let_def Sample_class_def new_sample_def env_at_def)

text \<open>
  C9. When \<open>validate\<close> returns a list of errors, \<open>save\<close> throws, has issued no statement,
  and leaves the record, every field of it, as it was before the call.
\<close>

theorem save_invalid_no_effect:
  "validate cls this = Some errors \<Longrightarrow>
     save cls env this =
       (Some (TypeError (''Job record is invalid: '' @ JSON_stringify errors)), this, [])"
  by (simp add: save_def)

theorem save_invalid_no_effect_witness:
  "validate Sample_class (bad_sample\<lparr>record_id := Some 5, createdAt := Some 10\<rparr>) =
     Some [''username is required'']
   \<and> save Sample_class (env_at 1000) (bad_sample\<lparr>record_id := Some 5, createdAt := Some 10\<rparr>) =
       (Some (TypeError (''Job record is invalid: ''
                @ JSON_stringify [''username is required''])),
        \<lparr>updatedAt = None, createdAt = Some 10, record_id = Some 5, username = []\<rparr>, [])"
  using save_invalid_no_effect
    [of Sample_class "bad_sample\<lparr>record_id := Some 5, createdAt := Some 10\<rparr>"
        "[''username is required'']" "env_at 1000"]
  by (simp add: Sample_class_def bad_sample_def)


section \<open>Parsing the variables of a coverages request\<close>

text \<open>
  C10. When the pieces of \<open>collectionIdParam\<close> between its commas include \<open>all\<close> and
  there are two pieces or more, \<open>parseVariables\<close> throws a \<open>RequestValidationError\<close>
  (\<open>"all" cannot be specified alongside other variables\<close>) and returns nothing, whatever
  the collections are.
\<close>

theorem parseVariables_all_with_others:
  "''all'' \<in> set (js_split CHR '','' collectionIdParam) \<Longrightarrow>
   2 \<le> length (js_split CHR '','' collectionIdParam) \<Longrightarrow>
   parseVariables eosdisCollections collectionIdParam =
     Inl (RequestValidationError
            ([CHR 0x22] @ ''all'' @ [CHR 0x22]
             @ '' cannot be specified alongside other variables''))"
  by (simp add: parseVariables_def Let_def)

theorem parseVariables_all_with_others_witness:
  "js_split CHR '','' ''V1,all'' = [''V1'', ''all'']
   \<and> ''all'' \<in> set (js_split CHR '','' ''V1,all'')
   \<and> 2 \<le> length (js_split CHR '','' ''V1,all'')
   \<and> parseVariables
        [\<lparr>collection_id = ''C1-PROV'', collection_variables = [\<lparr>umm_Name = ''V1''\<rparr>]\<rparr>]
        ''V1,all'' =
      Inl (JsError ''RequestValidationError''
            (CHR 0x22 # ''all'' @ CHR 0x22 # '' cannot be specified alongside other variables''))"
  using parseVariables_all_with_others
    [of "''V1,all''"
        "[\<lparr>collection_id = ''C1-PROV'', collection_variables = [\<lparr>umm_Name = ''V1''\<rparr>]\<rparr>]"]
  by (simp add: RequestValidationError_def)

end
